theory Spec2Isabelle
  imports Main "HOL-Library.Sublist"
begin

section \<open>Python strings and values used by flowrun\<close>

abbreviation (input) SQ :: char where "SQ \<equiv> CHR 0x27"
abbreviation (input) DQ :: char where "DQ \<equiv> CHR 0x22"
abbreviation (input) NL :: char where "NL \<equiv> CHR 0x0A"

text \<open>\<^verbatim>\<open>str(n)\<close> for an integer: decimal digits, with a leading minus sign.\<close>

fun str_nat :: "nat \<Rightarrow> string" where
  "str_nat n = (if n < 10 then [''0123456789'' ! n]
                else str_nat (n div 10) @ [''0123456789'' ! (n mod 10)])"

declare str_nat.simps [simp del]

definition str_int :: "int \<Rightarrow> string" where
  "str_int i = (if i < 0 then CHR ''-'' # str_nat (nat (- i)) else str_nat (nat i))"

text \<open>\<^verbatim>\<open>s.split(sep)\<close> for a non-empty separator: cut at every occurrence, left to right.\<close>

fun split_str :: "string \<Rightarrow> string \<Rightarrow> string list" where
  "split_str sep [] = [[]]"
| "split_str sep (c # cs) =
     (if prefix sep (c # cs) then [] # split_str sep (drop (length sep - 1) cs)
      else (case split_str sep cs of p # ps \<Rightarrow> (c # p) # ps | [] \<Rightarrow> [[c]]))"

text \<open>\<^verbatim>\<open>s.strip(chars)\<close>: drop leading and trailing characters that occur in \<open>chars\<close>.\<close>

definition strip_chars :: "string \<Rightarrow> string \<Rightarrow> string" where
  "strip_chars s chars =
     rev (dropWhile (\<lambda>c. c \<in> set chars) (rev (dropWhile (\<lambda>c. c \<in> set chars) s)))"

section \<open>Value interpolator\<close>

text \<open>
  The regular expression \<^verbatim>\<open>\{\{(.*?)\}\}\<close>. After an opening \<^verbatim>\<open>{{\<close>, \<open>find_close\<close>
  looks for the nearest \<^verbatim>\<open>}}\<close>; the dot does not match a newline, so a newline before
  the closing braces means no match here. It returns group 1 and the text after the match.
\<close>

fun find_close :: "string \<Rightarrow> (string \<times> string) option" where
  "find_close [] = None"
| "find_close (c # cs) =
     (if prefix ''}}'' (c # cs) then Some ([], drop 1 cs)
      else if c = NL then None
      else map_option (\<lambda>(var, rest). (c # var, rest)) (find_close cs))"

text \<open>
  \<^verbatim>\<open>re.sub(pattern, repl, text)\<close> for that pattern: matches are found left to right and do
  not overlap; \<open>repl\<close> receives group 1 (group 0 is group 1 between the braces).
\<close>

function re_sub :: "(string \<Rightarrow> string) \<Rightarrow> string \<Rightarrow> string" where
  "re_sub repl [] = []"
| "re_sub repl (c # cs) =
     (if prefix ''{{'' (c # cs) then
        (case find_close (drop 1 cs) of
           Some (var, rest) \<Rightarrow> repl var @ re_sub repl rest
         | None \<Rightarrow> c # re_sub repl cs)
      else c # re_sub repl cs)"
  by pat_completeness auto
termination
proof (relation "measure (\<lambda>(repl, s). length s)")
  show "wf (measure (\<lambda>(repl, s). length s))" by simp
next
  fix repl :: "string \<Rightarrow> string" and c cs x2 var rest
  assume found: "find_close (drop 1 cs) = Some x2" "(var, rest) = x2"
  have shorter: "find_close s = Some (v, r) \<Longrightarrow> length r < length s" for s v r
    by (induction s arbitrary: v r) (auto split: if_splits)
  from found have "length rest < length (drop 1 cs)"
    using shorter [of "drop 1 cs" var rest] by simp
  then show "((repl, rest), (repl, c # cs)) \<in> measure (\<lambda>(repl, s). length s)"
    by simp
qed simp_all

text \<open>The results dictionary: step name to a dictionary of fields.\<close>

type_synonym 'v results = "string \<rightharpoonup> (string \<rightharpoonup> 'v)"

definition placeholder :: "string \<Rightarrow> string" where
  "placeholder var = ''{{'' @ var @ ''}}''"

definition repl :: "('v \<Rightarrow> string) \<Rightarrow> (string \<rightharpoonup> string) \<Rightarrow> 'v results
    \<Rightarrow> string \<Rightarrow> string" where
  "repl str_of env results var =
     (if prefix ''env.'' var then
        (let key = drop 4 var in
         case env key of Some v \<Rightarrow> v | None \<Rightarrow> placeholder var)
      else if prefix ''steps['' var then
        (let parts = split_str [SQ, CHR '']'', CHR ''.''] (drop 7 (butlast var)) in
         if length parts = 2 then
           (let step_name = strip_chars (parts ! 0) [SQ, DQ]; key = parts ! 1 in
            case (case results step_name of Some d \<Rightarrow> d | None \<Rightarrow> Map.empty) key of
              Some v \<Rightarrow> str_of v
            | None \<Rightarrow> placeholder var)
         else placeholder var)
      else placeholder var)"

definition interpolate :: "('v \<Rightarrow> string) \<Rightarrow> string \<Rightarrow> (string \<rightharpoonup> string)
    \<Rightarrow> 'v results \<Rightarrow> string" where
  "interpolate str_of text env results = re_sub (repl str_of env results) text"

text \<open>
  The placeholders of a text: group 1 of every match, in the order \<open>re_sub\<close> finds them,
  and the condition under which \<open>repl\<close> puts a value in place of one.
\<close>

function matches :: "string \<Rightarrow> string list" where
  "matches [] = []"
| "matches (c # cs) =
     (if prefix ''{{'' (c # cs) then
        (case find_close (drop 1 cs) of
           Some (var, rest) \<Rightarrow> var # matches rest
         | None \<Rightarrow> matches cs)
      else matches cs)"
  by pat_completeness auto
termination
proof (relation "measure length")
  show "wf (measure length)" by simp
next
  fix c :: char and cs x2 var rest
  assume found: "find_close (drop 1 cs) = Some x2" "(var, rest) = x2"
  have shorter: "find_close s = Some (v, r) \<Longrightarrow> length r < length s" for s v r
    by (induction s arbitrary: v r) (auto split: if_splits)
  from found have "length rest < length (drop 1 cs)"
    using shorter [of "drop 1 cs" var rest] by simp
  then show "(rest, c # cs) \<in> measure length"
    by simp
qed simp_all

definition resolves :: "(string \<rightharpoonup> string) \<Rightarrow> 'v results \<Rightarrow> string \<Rightarrow> bool" where
  "resolves env res var =
     (if prefix ''env.'' var then env (drop 4 var) \<noteq> None
      else if prefix ''steps['' var then
        (let parts = split_str [SQ, CHR '']'', CHR ''.''] (drop 7 (butlast var)) in
         length parts = 2 \<and>
         (case res (strip_chars (parts ! 0) [SQ, DQ]) of
            Some d \<Rightarrow> d (parts ! 1) \<noteq> None
          | None \<Rightarrow> False))
      else False)"

section \<open>Step model\<close>

text \<open>\<^verbatim>\<open>s.lower()\<close> and \<^verbatim>\<open>s.upper()\<close> on ASCII letters.\<close>

definition lower_char :: "char \<Rightarrow> char" where
  "lower_char c = (let n = (of_char c :: nat) in if 65 \<le> n \<and> n \<le> 90 then char_of (n + 32) else c)"

definition upper_char :: "char \<Rightarrow> char" where
  "upper_char c = (let n = (of_char c :: nat) in if 97 \<le> n \<and> n \<le> 122 then char_of (n - 32) else c)"

definition lower :: "string \<Rightarrow> string" where
  "lower s = map lower_char s"

definition upper :: "string \<Rightarrow> string" where
  "upper s = map upper_char s"

text \<open>
  The mapping a step is built from (one item of the document's \<^verbatim>\<open>steps\<close> list); an
  absent key is \<open>None\<close>. \<open>'v\<close> is the type of Python values.
\<close>

record 'v raw_step =
  raw_name :: "string option"
  raw_type :: "string option"
  raw_command :: "string option"
  raw_code :: "string option"
  raw_method :: "string option"
  raw_url :: "string option"
  raw_json :: "(string \<times> 'v) list option"
  raw_headers :: "(string \<times> string) list option"
  raw_continue_on_error :: "bool option"

record 'v step =
  name :: string
  type :: string
  command :: "string option"
  code :: "string option"
  http_method :: string
  url :: "string option"
  json :: "(string \<times> 'v) list option"
  headers :: "(string \<times> string) list option"
  continue_on_error :: bool

text \<open>
  The field \<^verbatim>\<open>method\<close> of the class is \<open>http_method\<close> here.
  Python truthiness of an optional string: \<^verbatim>\<open>None\<close> and \<^verbatim>\<open>""\<close> are false.\<close>

definition truthy :: "string option \<Rightarrow> bool" where
  "truthy x = (case x of None \<Rightarrow> False | Some s \<Rightarrow> s \<noteq> [])"

text \<open>\<^verbatim>\<open>Step.__init__\<close>; \<open>Inl\<close> carries the message of the \<^verbatim>\<open>ValueError\<close>.\<close>

definition Step :: "'v raw_step \<Rightarrow> string + 'v step" where
  "Step data =
     (let self = \<lparr> name = (case raw_name data of Some n \<Rightarrow> n | None \<Rightarrow> ''Unnamed step''),
                   type = lower (case raw_type data of Some t \<Rightarrow> t | None \<Rightarrow> []),
                   command = raw_command data,
                   code = raw_code data,
                   http_method = upper (case raw_method data of Some m \<Rightarrow> m | None \<Rightarrow> ''GET''),
                   url = raw_url data,
                   json = raw_json data,
                   headers = raw_headers data,
                   continue_on_error =
                     (case raw_continue_on_error data of Some b \<Rightarrow> b | None \<Rightarrow> False) \<rparr>
      in if type self \<notin> {''shell'', ''python'', ''http''} then
           Inl (''Unknown step type: '' @ type self)
         else if type self = ''shell'' \<and> \<not> truthy (command self) then
           Inl (''Shell step requires '' @ [SQ] @ ''command'' @ [SQ])
         else if type self = ''python'' \<and> \<not> truthy (code self) then
           Inl (''Python step requires '' @ [SQ] @ ''code'' @ [SQ])
         else if type self = ''http'' \<and> \<not> truthy (url self) then
           Inl (''HTTP step requires '' @ [SQ] @ ''url'' @ [SQ])
         else Inr self)"

text \<open>
  The loop of \<^verbatim>\<open>load_workflow\<close> over the raw steps (numbered from \<open>i\<close>): the first
  invalid step ends loading with \<^verbatim>\<open>typer.Exit(1)\<close>, here \<open>Inl\<close> with the step's number
  and the message printed.
\<close>

fun load_steps :: "nat \<Rightarrow> 'v raw_step list \<Rightarrow> (nat \<times> string) + 'v step list" where
  "load_steps i [] = Inr []"
| "load_steps i (raw # raws) =
     (case Step raw of
        Inl e \<Rightarrow> Inl (i, e)
      | Inr s \<Rightarrow> (case load_steps (Suc i) raws of
                    Inl err \<Rightarrow> Inl err
                  | Inr ss \<Rightarrow> Inr (s # ss)))"

section \<open>The host: subprocesses, the Python interpreter, the network\<close>

text \<open>
  What the executors call but do not define is a parameter of the model. Each call takes
  the state of the outside world \<open>'w\<close> and returns the new one, so the same command may
  behave differently at different times.
\<close>

text \<open>
  \<^verbatim>\<open>subprocess.run\<close>: a completed process (return code, stdout, stderr), the exception
  \<^verbatim>\<open>TimeoutExpired\<close>, or another exception with its text.
\<close>

datatype proc_result = Exited int string string | TimeoutExpired | SpawnError string

text \<open>
  \<^verbatim>\<open>exec\<close> of a script under the redirected streams: it completes (captured stdout and
  stderr, the local variables it leaves), raises an \<^verbatim>\<open>Exception\<close> (captured stdout, the
  text of \<^verbatim>\<open>traceback.format_exc()\<close>), or raises something that is not an
  \<^verbatim>\<open>Exception\<close>, such as \<^verbatim>\<open>SystemExit\<close> (its name).
\<close>

datatype 'v exec_result =
    Completed string string "string \<rightharpoonup> 'v"
  | Raised string string
  | Escaped string

text \<open>\<^verbatim>\<open>httpx.request\<close>: a response (status code, body text) or an exception with its text.\<close>

datatype http_result = Response int string | RequestError string

record request =
  req_method :: string
  req_url :: string
  req_headers :: "(string \<times> string) list"
  req_json :: "(string \<times> string) list option"
  req_timeout :: nat

text \<open>
  The host: \<^verbatim>\<open>str\<close> and \<^verbatim>\<open>None\<close>; \<^verbatim>\<open>subprocess.run\<close> on a command line with a
  timeout in seconds; \<^verbatim>\<open>exec\<close> on a script with the results dictionary (it returns the
  dictionary as the script leaves it); \<^verbatim>\<open>httpx.request\<close>; and the text of the
  \<^verbatim>\<open>TypeError\<close> that \<^verbatim>\<open>re.sub\<close> raises on a text that is \<^verbatim>\<open>None\<close>. A command or
  script that is \<^verbatim>\<open>None\<close> is passed on as it is, as the code does.
\<close>

record ('v, 'w) host =
  str_of :: "'v \<Rightarrow> string"
  py_none :: 'v
  subprocess_run :: "string option \<Rightarrow> nat \<Rightarrow> 'w \<Rightarrow> proc_result \<times> 'w"
  py_exec :: "string option \<Rightarrow> 'v results \<Rightarrow> 'w \<Rightarrow> 'v exec_result \<times> 'v results \<times> 'w"
  httpx_request :: "request \<Rightarrow> 'w \<Rightarrow> http_result \<times> 'w"
  re_type_error :: string

section \<open>Executors\<close>

type_synonym outcome = "int \<times> string \<times> string"

text \<open>\<^verbatim>\<open>run_shell\<close>: return code, stdout and stderr.\<close>

definition run_shell :: "('v, 'w) host \<Rightarrow> string option \<Rightarrow> 'w \<Rightarrow> outcome \<times> 'w" where
  "run_shell h cmd w =
     (case subprocess_run h cmd 600 w of
        (Exited returncode out err, w') \<Rightarrow> ((returncode, out, err), w')
      | (TimeoutExpired, w') \<Rightarrow> ((124, [], ''Command timed out''), w')
      | (SpawnError e, w') \<Rightarrow> ((1, [], e), w'))"

text \<open>
  \<^verbatim>\<open>run_python\<close> catches \<^verbatim>\<open>Exception\<close> only: what else the script raises leaves the
  function (\<open>Inl\<close>). The script holds the results dictionary itself and may change it.
\<close>

definition run_python :: "('v, 'w) host \<Rightarrow> string option \<Rightarrow> 'v results \<Rightarrow> 'w
    \<Rightarrow> string + ((int \<times> string \<times> string \<times> 'v) \<times> 'v results \<times> 'w)" where
  "run_python h src results w =
     (case py_exec h src results w of
        (Completed out err local_vars, results', w') \<Rightarrow>
          Inr ((0, out, err, (case local_vars ''return'' of Some v \<Rightarrow> v | None \<Rightarrow> py_none h)),
               results', w')
      | (Raised out tb, results', w') \<Rightarrow> Inr ((1, out, tb, py_none h), results', w')
      | (Escaped e, results', w') \<Rightarrow> Inl e)"

text \<open>
  \<^verbatim>\<open>run_http\<close> in three parts: the JSON body after \<^verbatim>\<open>step.json or None\<close> and the
  comprehension over its items; the arguments passed to \<^verbatim>\<open>httpx.request\<close> for a step
  with URL \<open>u\<close>; and the triple returned for a response. Every exception in the body
  of \<^verbatim>\<open>run_http\<close> is caught and gives return code 1 with the exception's text; a URL
  that is \<^verbatim>\<open>None\<close> makes \<^verbatim>\<open>interpolate\<close> raise before any request is made.
\<close>

definition json_body :: "('v \<Rightarrow> string) \<Rightarrow> 'v step \<Rightarrow> (string \<rightharpoonup> string) \<Rightarrow> 'v results
    \<Rightarrow> (string \<times> string) list option" where
  "json_body str body_step env results =
     (case json body_step of
        None \<Rightarrow> None
      | Some body \<Rightarrow>
          if body = [] then None
          else Some (map (\<lambda>(k, v). (k, interpolate str (str v) env results)) body))"

definition request_args :: "('v \<Rightarrow> string) \<Rightarrow> 'v step \<Rightarrow> string \<Rightarrow> (string \<rightharpoonup> string)
    \<Rightarrow> 'v results \<Rightarrow> request" where
  "request_args str s u env results =
     \<lparr> req_method = http_method s,
       req_url = interpolate str u env results,
       req_headers = map (\<lambda>(k, v). (k, interpolate str v env results))
                       (case headers s of None \<Rightarrow> [] | Some hs \<Rightarrow> hs),
       req_json = json_body str s env results,
       req_timeout = 30 \<rparr>"

definition http_outcome :: "int \<Rightarrow> string \<Rightarrow> outcome" where
  "http_outcome status text =
     (if 200 \<le> status \<and> status < 300 then 0 else status,
      if length text > 500 then ''Status: '' @ str_int status @ [NL] @ take 500 text @ ''...''
      else text,
      if 200 \<le> status \<and> status < 300 then [] else text)"

definition run_http :: "('v, 'w) host \<Rightarrow> 'v step \<Rightarrow> (string \<rightharpoonup> string) \<Rightarrow> 'v results \<Rightarrow> 'w
    \<Rightarrow> outcome \<times> 'w" where
  "run_http h s env results w =
     (case url s of
        None \<Rightarrow> ((1, [], re_type_error h), w)
      | Some u \<Rightarrow>
          (case httpx_request h (request_args (str_of h) s u env results) w of
             (Response status text, w') \<Rightarrow> (http_outcome status text, w')
           | (RequestError e, w') \<Rightarrow> ((1, [], e), w')))"

section \<open>Run coordinator\<close>

text \<open>
  The state of a run: the outside world, the shared results dictionary, and one entry per
  call of \<^verbatim>\<open>execute_step\<close> that reached its result line on the console (the step, its
  return code, output and error text, and the flag \<^verbatim>\<open>success\<close>).
\<close>

record 'v entry =
  e_step :: "'v step"
  e_ret :: int
  e_out :: string
  e_err :: string
  e_success :: bool

record ('v, 'w) state =
  world :: 'w
  results :: "'v results"
  trace :: "'v entry list"

text \<open>
  The end of \<^verbatim>\<open>execute_step\<close>, once the executor has returned: the result line, and
  the value \<^verbatim>\<open>success or step.continue_on_error\<close>.
\<close>

definition report :: "'v step \<Rightarrow> outcome \<Rightarrow> ('v, 'w) state \<Rightarrow> bool \<times> ('v, 'w) state" where
  "report s oc st =
     (case oc of (ret, out, err) \<Rightarrow>
        (let success = (ret = 0) in
         (success \<or> continue_on_error s,
          st\<lparr>trace := trace st @
                [\<lparr>e_step = s, e_ret = ret, e_out = out, e_err = err, e_success = success\<rparr>]\<rparr>)))"

text \<open>
  \<^verbatim>\<open>execute_step\<close>: the executor is chosen by the step's type; a scripted step whose
  returned value is not \<^verbatim>\<open>None\<close> is recorded in the results dictionary. \<open>Inl\<close> is
  an exception that left \<^verbatim>\<open>run_python\<close>.
\<close>

definition execute_step :: "('v, 'w) host \<Rightarrow> 'v step \<Rightarrow> (string \<rightharpoonup> string) \<Rightarrow> ('v, 'w) state
    \<Rightarrow> string + (bool \<times> ('v, 'w) state)" where
  "execute_step h s env st =
     (if type s = ''shell'' then
        (case run_shell h (command s) (world st) of
           (oc, w') \<Rightarrow> Inr (report s oc (st\<lparr>world := w'\<rparr>)))
      else if type s = ''python'' then
        (case run_python h (code s) (results st) (world st) of
           Inl e \<Rightarrow> Inl e
         | Inr ((ret, out, err, returned), results', w') \<Rightarrow>
             Inr (report s (ret, out, err)
                    (st\<lparr>world := w',
                        results := (if returned \<noteq> py_none h
                                    then results'(name s \<mapsto> [''result'' \<mapsto> returned])
                                    else results')\<rparr>)))
      else
        (case run_http h s env (results st) (world st) of
           (oc, w') \<Rightarrow> Inr (report s oc (st\<lparr>world := w'\<rparr>))))"

text \<open>
  The sequential loop of \<^verbatim>\<open>run\<close>, with the flag \<open>success\<close> as it stands before the
  remaining steps.
\<close>

fun run_steps :: "('v, 'w) host \<Rightarrow> bool \<Rightarrow> (string \<rightharpoonup> string) \<Rightarrow> 'v step list \<Rightarrow> bool
    \<Rightarrow> ('v, 'w) state \<Rightarrow> string + (bool \<times> ('v, 'w) state)" where
  "run_steps h verbose env [] success st = Inr (success, st)"
| "run_steps h verbose env (s # ss) success st =
     (case execute_step h s env st of
        Inl e \<Rightarrow> Inl e
      | Inr (ok, st') \<Rightarrow>
          if \<not> ok then
            (if \<not> verbose then Inr (False, st')
             else run_steps h verbose env ss False st')
          else run_steps h verbose env ss success st')"

text \<open>
  \<^verbatim>\<open>run\<close> without \<^verbatim>\<open>--parallel\<close>, after loading: the exit code of the process and the
  final state, or the exception that left an executor.
\<close>

definition run_workflow :: "('v, 'w) host \<Rightarrow> bool \<Rightarrow> (string \<rightharpoonup> string) \<Rightarrow> 'v step list
    \<Rightarrow> ('v, 'w) state \<Rightarrow> string + (int \<times> ('v, 'w) state)" where
  "run_workflow h verbose env steps st =
     (if steps = [] then Inr (0, st)
      else (case run_steps h verbose env steps True st of
              Inl e \<Rightarrow> Inl e
            | Inr (success, st') \<Rightarrow> Inr (if success then 0 else 1, st')))"

definition run :: "('v, 'w) host \<Rightarrow> bool \<Rightarrow> (string \<rightharpoonup> string) \<Rightarrow> 'v raw_step list
    \<Rightarrow> ('v, 'w) state \<Rightarrow> string + (int \<times> ('v, 'w) state)" where
  "run h verbose env raw_steps st =
     (case load_steps 1 raw_steps of
        Inl err \<Rightarrow> Inr (1, st)
      | Inr steps \<Rightarrow> run_workflow h verbose env steps st)"

text \<open>The entries a run added to the trace.\<close>

definition executed :: "('v, 'w) state \<Rightarrow> ('v, 'w) state \<Rightarrow> 'v entry list" where
  "executed st st' = drop (length (trace st)) (trace st')"

section \<open>A scripted host for concrete runs\<close>

text \<open>
  Concrete runs use scalar Python values and a host that answers a handful of commands,
  scripts and URLs the way a test double would. The local variable \<^verbatim>\<open>return\<close> cannot be
  assigned by a statement (\<^verbatim>\<open>return\<close> is a keyword); a script binds it through
  \<^verbatim>\<open>locals()\<close>.
\<close>

datatype pyval = PyNone | PyBool bool | PyInt int | PyStr string

fun py_str :: "pyval \<Rightarrow> string" where
  "py_str PyNone = ''None''"
| "py_str (PyBool b) = (if b then ''True'' else ''False'')"
| "py_str (PyInt i) = str_int i"
| "py_str (PyStr s) = s"

definition bind_return_none :: string where
  "bind_return_none = ''locals()['' @ [SQ] @ ''return'' @ [SQ] @ ''] = None''"

definition bind_return_42 :: string where
  "bind_return_42 = ''locals()['' @ [SQ] @ ''return'' @ [SQ] @ ''] = 42''"

definition mock_host :: "(pyval, unit) host" where
  "mock_host =
     \<lparr> str_of = py_str,
       py_none = PyNone,
       subprocess_run = (\<lambda>cmd t w.
         (if cmd = Some ''exit 3'' then Exited 3 [] []
          else if cmd = Some ''sleep 601'' \<and> t < 601 then TimeoutExpired
          else if cmd = Some [CHR 0x00] then SpawnError ''embedded null byte''
          else Exited 0 [] [], w)),
       py_exec = (\<lambda>src res w.
         (if src = Some ''raise SystemExit(3)'' then Escaped ''SystemExit''
          else if src = Some bind_return_none then Completed [] [] [''return'' \<mapsto> PyNone]
          else if src = Some bind_return_42 then Completed [] [] [''return'' \<mapsto> PyInt 42]
          else if src = Some ''1/0'' then Raised [] ''ZeroDivisionError: division by zero''
          else Completed [] [] Map.empty, res, w)),
       httpx_request = (\<lambda>req w.
         (if req_url req = ''http://mock/missing'' then Response 404 ''not found''
          else if req_url req = ''http://mock/long'' then Response 200 (replicate 501 (CHR ''a''))
          else if req_url req = ''http://mock/refused'' then RequestError ''Connection refused''
          else Response 200 ''ok'', w)),
       re_type_error = ''expected string or bytes-like object'' \<rparr>"

text \<open>A host like \<open>mock_host\<close> whose world is the list of the requests sent so far.\<close>

definition recording_host :: "(pyval, request list) host" where
  "recording_host =
     \<lparr> str_of = py_str,
       py_none = PyNone,
       subprocess_run = (\<lambda>cmd t w. (Exited 0 [] [], w)),
       py_exec = (\<lambda>src res w. (Completed [] [] Map.empty, res, w)),
       httpx_request = (\<lambda>req w. (Response 200 ''ok'', w @ [req])),
       re_type_error = ''expected string or bytes-like object'' \<rparr>"

definition shell_step :: "string \<Rightarrow> string \<Rightarrow> bool \<Rightarrow> pyval step" where
  "shell_step n cmd coe =
     \<lparr> name = n, type = ''shell'', command = Some cmd, code = None, http_method = ''GET'',
       url = None, json = None, headers = None, continue_on_error = coe \<rparr>"


definition http_step :: "string \<Rightarrow> string \<Rightarrow> (string \<times> pyval) list option \<Rightarrow> pyval step" where
  "http_step n u body =
     \<lparr> name = n, type = ''http'', command = None, code = None, http_method = ''POST'',
       url = Some u, json = body, headers = None, continue_on_error = False \<rparr>"



definition st0 :: "(pyval, unit) state" where
  "st0 = \<lparr> world = (), results = Map.empty, trace = [] \<rparr>"

definition step_result_ref :: "string \<Rightarrow> string \<Rightarrow> string" where
  "step_result_ref n field = ''{{steps['' @ [SQ] @ n @ [SQ] @ ''].'' @ field @ ''}}''"

definition step_result_ref_dq :: "string \<Rightarrow> string \<Rightarrow> string" where
  "step_result_ref_dq n field = ''{{steps['' @ [DQ] @ n @ [DQ] @ ''].'' @ field @ ''}}''"

section \<open>Shell steps\<close>

text \<open>
  C8. A shell step's outcome carries the subprocess's return code, and the step succeeded
  exactly when that code is 0; when \<^verbatim>\<open>subprocess.run\<close>, called with the timeout of 600
  seconds, reports the timeout, the outcome is return code 124, empty output, the error
  text "Command timed out", and no success.
\<close>

theorem shell_step_outcome:
  assumes "type s = ''shell''"
  shows "(subprocess_run h (command s) 600 (world st) = (Exited rc out err, w') \<longrightarrow>
            execute_step h s env st =
              Inr (rc = 0 \<or> continue_on_error s,
                   st\<lparr>world := w',
                      trace := trace st @ [\<lparr>e_step = s, e_ret = rc, e_out = out, e_err = err,
                                             e_success = (rc = 0)\<rparr>]\<rparr>))
       \<and> (subprocess_run h (command s) 600 (world st) = (TimeoutExpired, w') \<longrightarrow>
            execute_step h s env st =
              Inr (continue_on_error s,
                   st\<lparr>world := w',
                      trace := trace st @ [\<lparr>e_step = s, e_ret = 124, e_out = [],
                                             e_err = ''Command timed out'',
                                             e_success = False\<rparr>]\<rparr>))"
  using assms by (simp add: execute_step_def run_shell_def report_def Let_def)

theorem shell_step_outcome_witness:
  "execute_step mock_host (shell_step ''s'' ''exit 3'' False) Map.empty st0 =
     Inr (False, st0\<lparr>trace := [\<lparr>e_step = shell_step ''s'' ''exit 3'' False, e_ret = 3,
                                   e_out = [], e_err = [], e_success = False\<rparr>]\<rparr>)
   \<and> execute_step mock_host (shell_step ''t'' ''sleep 601'' False) Map.empty st0 =
     Inr (False, st0\<lparr>trace := [\<lparr>e_step = shell_step ''t'' ''sleep 601'' False, e_ret = 124,
                                   e_out = [], e_err = ''Command timed out'',
                                   e_success = False\<rparr>]\<rparr>)"
  using shell_step_outcome [of "shell_step ''s'' ''exit 3'' False" mock_host st0 3 "[]" "[]" "()" Map.empty]
    shell_step_outcome [of "shell_step ''t'' ''sleep 601'' False" mock_host st0 0 "[]" "[]" "()" Map.empty]
  by (simp add: shell_step_def mock_host_def st0_def)

section \<open>HTTP steps\<close>

text \<open>
  C10. For an HTTP step with a URL whose \<^verbatim>\<open>json\<close> mapping is not empty,
  \<^verbatim>\<open>run_http\<close> calls \<^verbatim>\<open>httpx.request\<close> once, and the body it sends has the same
  keys in the same order, each value being the interpolation of \<^verbatim>\<open>str\<close> of the declared
  value: every value sent is a string, whatever the declared value was.
\<close>

theorem json_body_values_stringified:
  assumes "url s = Some u" and "json s = Some body" and "body \<noteq> []"
  shows "run_http h s env res w =
           (case httpx_request h
                   \<lparr> req_method = http_method s,
                     req_url = interpolate (str_of h) u env res,
                     req_headers = map (\<lambda>(k, v). (k, interpolate (str_of h) v env res))
                                     (case headers s of None \<Rightarrow> [] | Some hs \<Rightarrow> hs),
                     req_json = Some (map (\<lambda>(k, v). (k, interpolate (str_of h) (str_of h v) env res))
                                        body),
                     req_timeout = 30 \<rparr> w of
              (Response status text, w') \<Rightarrow> (http_outcome status text, w')
            | (RequestError e, w') \<Rightarrow> ((1, [], e), w'))
       \<and> req_json (request_args (str_of h) s u env res) =
           Some (map (\<lambda>(k, v). (k, interpolate (str_of h) (str_of h v) env res)) body)"
  using assms by (simp add: run_http_def request_args_def json_body_def)

theorem json_body_values_stringified_witness:
  "snd (run_http recording_host
       (http_step ''post'' ''http://mock/ok''
          (Some [(''n'', PyInt 7), (''b'', PyBool True), (''who'', PyStr ''{{env.USER}}'')]))
       [''USER'' \<mapsto> ''ann''] Map.empty []) =
     [\<lparr> req_method = ''POST'', req_url = ''http://mock/ok'', req_headers = [],
        req_json = Some [(''n'', ''7''), (''b'', ''True''), (''who'', ''ann'')],
        req_timeout = 30 \<rparr>]"
  using json_body_values_stringified
    [where s = "http_step ''post'' ''http://mock/ok''
          (Some [(''n'', PyInt 7), (''b'', PyBool True), (''who'', PyStr ''{{env.USER}}'')])"
       and body = "[(''n'', PyInt 7), (''b'', PyBool True), (''who'', PyStr ''{{env.USER}}'')]"
       and h = recording_host and u = "''http://mock/ok''" and env = "[''USER'' \<mapsto> ''ann'']"
       and res = Map.empty and w = "[]"]
  by (simp add: http_step_def recording_host_def interpolate_def repl_def placeholder_def
      str_int_def str_nat.simps)

text \<open>
  C6, as amended. For an HTTP step whose request returns a response with a status other
  than 0 and a body: the step succeeded with return code 0 exactly when the status is
  between 200 and 299, and then the error text is empty; otherwise the return code is the
  status and the error text is the body. The output is the body when it has at most 500
  characters; a longer body gives the line "Status: " and the status, a newline, the first
  500 characters of the body and three dots.
\<close>

theorem http_response_outcome:
  assumes "type s = ''http''" and "url s = Some u"
    and "httpx_request h (request_args (str_of h) s u env (results st)) (world st) =
           (Response status text, w')"
    and "status \<noteq> 0"
  shows "execute_step h s env st =
           Inr ((200 \<le> status \<and> status \<le> 299) \<or> continue_on_error s,
                st\<lparr>world := w',
                   trace := trace st @
                     [\<lparr>e_step = s,
                       e_ret = (if 200 \<le> status \<and> status \<le> 299 then 0 else status),
                       e_out = (if length text > 500
                                then ''Status: '' @ str_int status @ [NL] @ take 500 text @ ''...''
                                else text),
                       e_err = (if 200 \<le> status \<and> status \<le> 299 then [] else text),
                       e_success = (200 \<le> status \<and> status \<le> 299)\<rparr>]\<rparr>)"
proof -
  have range: "(200 \<le> status \<and> status < 300) = (200 \<le> status \<and> status \<le> 299)"
    by auto
  have oc: "run_http h s env (results st) (world st) = (http_outcome status text, w')"
    using assms(2,3) by (simp add: run_http_def)
  show ?thesis
    using assms(1,4) oc
    by (auto simp add: execute_step_def http_outcome_def report_def Let_def range)
qed

theorem http_response_outcome_witness:
  "execute_step mock_host (http_step ''get'' ''http://mock/missing'' None) Map.empty st0 =
     Inr (False, st0\<lparr>trace := [\<lparr>e_step = http_step ''get'' ''http://mock/missing'' None,
                                   e_ret = 404, e_out = ''not found'', e_err = ''not found'',
                                   e_success = False\<rparr>]\<rparr>)"
  using http_response_outcome
    [of "http_step ''get'' ''http://mock/missing'' None" "''http://mock/missing''" mock_host
        Map.empty st0 404 "''not found''" "()"]
  by (simp add: http_step_def mock_host_def st0_def request_args_def json_body_def
      interpolate_def)

text \<open>
  C6 as stated fails on a body of 501 characters: the output is not the body cut to 500
  characters with a marker, it starts with a status line.
\<close>

theorem http_long_body_output_counterexample:
  "fst (run_http mock_host (http_step ''get'' ''http://mock/long'' None) Map.empty Map.empty ()) =
     (0, ''Status: 200'' @ [NL] @ replicate 500 (CHR ''a'') @ ''...'', [])
   \<and> fst (snd (fst (run_http mock_host (http_step ''get'' ''http://mock/long'' None)
                     Map.empty Map.empty ())))
       \<noteq> take 500 (replicate 501 (CHR ''a'')) @ ''...''"
  by (simp add: run_http_def mock_host_def http_step_def request_args_def json_body_def
      interpolate_def http_outcome_def str_int_def str_nat.simps)

section \<open>Interpolation of step results\<close>

lemma find_close_text:
  "find_close s = Some (var, rest) \<Longrightarrow> s = var @ ''}}'' @ rest"
proof (induction s arbitrary: var rest)
  case Nil
  then show ?case by simp
next
  case (Cons c cs)
  show ?case
  proof (cases "prefix ''}}'' (c # cs)")
    case True
    with Cons.prems have "var = []" "rest = drop 1 cs" by auto
    moreover from True obtain ds where "c # cs = ''}}'' @ ds" by (auto simp: prefix_def)
    ultimately show ?thesis by auto
  next
    case False
    with Cons.prems obtain v where "find_close cs = Some (v, rest)" "var = c # v"
      by (auto split: if_splits)
    with Cons.IH show ?thesis by auto
  qed
qed

lemma re_sub_verbatim:
  "(\<forall>var \<in> set (matches t). f var = placeholder var) \<Longrightarrow> re_sub f t = t"
proof (induction f t rule: re_sub.induct)
  case (1 f)
  then show ?case by simp
next
  case (2 f c cs)
  show ?case
  proof (cases "prefix ''{{'' (c # cs)")
    case False
    then have "matches (c # cs) = matches cs" "re_sub f (c # cs) = c # re_sub f cs"
      by (simp_all only: matches.simps re_sub.simps if_False)
    with "2.IH"(3) [OF False] "2.prems" show ?thesis by simp
  next
    case True
    show ?thesis
    proof (cases "find_close (drop 1 cs)")
      case None
      with True have "matches (c # cs) = matches cs" "re_sub f (c # cs) = c # re_sub f cs"
        by (simp_all only: matches.simps re_sub.simps if_True option.case)
      with "2.IH"(1) [OF True None] "2.prems" show ?thesis by simp
    next
      case (Some p)
      obtain var rest where p: "p = (var, rest)" by (cases p)
      from True obtain ds where ds: "c # cs = ''{{'' @ ds" by (auto simp: prefix_def)
      then have d1: "drop 1 cs = ds" by auto
      from Some p d1 have shape: "ds = var @ ''}}'' @ rest"
        using find_close_text by metis
      from True Some p have step_eq: "matches (c # cs) = var # matches rest"
        "re_sub f (c # cs) = f var @ re_sub f rest"
        by (simp_all only: matches.simps re_sub.simps if_True option.case prod.case)
      with "2.prems" have fv: "f var = placeholder var"
        and rest: "\<forall>v \<in> set (matches rest). f v = placeholder v"
        by auto
      from "2.IH"(2) [OF True Some p [symmetric] rest] have "re_sub f rest = rest" .
      with step_eq fv have "re_sub f (c # cs) = placeholder var @ rest" by simp
      also have "\<dots> = c # cs" using ds shape by (simp add: placeholder_def)
      finally show ?thesis .
    qed
  qed
qed

lemma repl_unresolved:
  "\<not> resolves env res var \<Longrightarrow> repl str env res var = placeholder var"
  by (auto simp add: repl_def resolves_def Let_def split: option.splits if_splits)

text \<open>
  What holds of the code as it is: a text none of whose placeholders meets the condition
  under which \<open>repl\<close> substitutes is returned unchanged.
\<close>

lemma interpolate_unresolved_verbatim:
  assumes "\<forall>var \<in> set (matches t). \<not> resolves env res var"
  shows "interpolate str t env res = t"
  unfolding interpolate_def using assms
  by (intro re_sub_verbatim) (simp add: repl_unresolved)

text \<open>
  C3. The claim is that \<^verbatim>\<open>{{steps['A'].result}}\<close> is replaced by \<^verbatim>\<open>42\<close> when the
  results hold \<^verbatim>\<open>{"A": {"result": 42}}\<close>. The code slices the reference with
  \<^verbatim>\<open>var[7:-1]\<close>, which drops the last character of the field name, so it looks up the
  key \<^verbatim>\<open>resul\<close>, finds nothing and leaves the placeholder as it is. With the name in
  double quotes the reference is not split at all (the separator holds a single quote) and
  is left as it is too.
\<close>

theorem interpolate_step_result_left_verbatim:
  "interpolate py_str (step_result_ref ''A'' ''result'') Map.empty
     [''A'' \<mapsto> [''result'' \<mapsto> PyInt 42]] = step_result_ref ''A'' ''result''
   \<and> interpolate py_str (step_result_ref_dq ''A'' ''result'') Map.empty
     [''A'' \<mapsto> [''result'' \<mapsto> PyInt 42]] = step_result_ref_dq ''A'' ''result''
   \<and> step_result_ref ''A'' ''result'' \<noteq> ''42''
   \<and> step_result_ref_dq ''A'' ''result'' \<noteq> ''42''"
  by (simp add: step_result_ref_def step_result_ref_dq_def interpolate_def repl_def
      placeholder_def strip_chars_def)

text \<open>
  C7. The claim is that a text without a resolvable placeholder is returned unchanged.
  The results hold no field \<^verbatim>\<open>resultX\<close> for step \<^verbatim>\<open>A\<close>, so
  \<^verbatim>\<open>{{steps['A'].resultX}}\<close> is an unresolved reference; the code, having dropped the
  last character of the field name, replaces it by the value of the field \<^verbatim>\<open>result\<close>.
\<close>

theorem interpolate_other_field_resolved:
  "interpolate py_str (step_result_ref ''A'' ''resultX'') Map.empty
     [''A'' \<mapsto> [''result'' \<mapsto> PyInt 42]] = ''42''
   \<and> [''result'' \<mapsto> PyInt 42] ''resultX'' = None
   \<and> step_result_ref ''A'' ''resultX'' \<noteq> ''42''"
  by (simp add: step_result_ref_def interpolate_def repl_def placeholder_def strip_chars_def
      str_int_def str_nat.simps)

section \<open>Scripted steps\<close>




section \<open>Sequential runs\<close>

lemma execute_step_entry:
  assumes "execute_step h s env st = Inr (ok, st')"
  shows "\<exists>e. trace st' = trace st @ [e] \<and> e_step e = s \<and> e_success e = (e_ret e = 0)
             \<and> ok = (e_success e \<or> continue_on_error s)"
  using assms
  by (auto simp add: execute_step_def report_def Let_def
      split: if_splits prod.splits sum.splits)

lemma run_steps_trace:
  assumes "run_steps h verbose env steps success st = Inr (ok, st')"
  shows "\<exists>es. trace st' = trace st @ es
            \<and> map e_step es = take (length es) steps
            \<and> (ok \<longleftrightarrow> success \<and> (\<forall>e \<in> set es. e_success e \<or> continue_on_error (e_step e)))
            \<and> (verbose \<or> ok \<longrightarrow> length es = length steps)
            \<and> (\<not> verbose \<longrightarrow> (\<forall>i < length es.
                  \<not> (e_success (es ! i) \<or> continue_on_error (e_step (es ! i)))
                  \<longrightarrow> Suc i = length es))"
  using assms
proof (induction steps arbitrary: success st)
  case Nil
  then show ?case by simp
next
  case (Cons s ss)
  from Cons.prems obtain ok1 st1 where ex: "execute_step h s env st = Inr (ok1, st1)"
    by (auto split: sum.splits)
  from execute_step_entry [OF ex] obtain e where
    e: "trace st1 = trace st @ [e]" "e_step e = s" "ok1 = (e_success e \<or> continue_on_error s)"
    by blast
  show ?case
  proof (cases "\<not> ok1 \<and> \<not> verbose")
    case True
    with Cons.prems ex have "ok = False" "st' = st1" by auto
    with e True show ?thesis
      by (intro exI [of _ "[e]"]) auto
  next
    case False
    define success' where "success' = (if ok1 then success else False)"
    from False Cons.prems ex have rest: "run_steps h verbose env ss success' st1 = Inr (ok, st')"
      by (auto simp: success'_def split: if_splits)
    from Cons.IH [OF rest] obtain es where
      es: "trace st' = trace st1 @ es"
          "map e_step es = take (length es) ss"
          "ok \<longleftrightarrow> success' \<and> (\<forall>e \<in> set es. e_success e \<or> continue_on_error (e_step e))"
          "verbose \<or> ok \<longrightarrow> length es = length ss"
          "\<not> verbose \<longrightarrow> (\<forall>i < length es.
              \<not> (e_success (es ! i) \<or> continue_on_error (e_step (es ! i))) \<longrightarrow> Suc i = length es)"
      by blast
    have "trace st' = trace st @ (e # es)" using e es by simp
    moreover have "map e_step (e # es) = take (length (e # es)) (s # ss)" using e es by simp
    moreover have "ok \<longleftrightarrow> success \<and> (\<forall>x \<in> set (e # es). e_success x \<or> continue_on_error (e_step x))"
      using e es(3) by (auto simp: success'_def)
    moreover have "verbose \<or> ok \<longrightarrow> length (e # es) = length (s # ss)" using es(4) by simp
    moreover have "\<not> verbose \<longrightarrow> (\<forall>i < length (e # es).
              \<not> (e_success ((e # es) ! i) \<or> continue_on_error (e_step ((e # es) ! i)))
              \<longrightarrow> Suc i = length (e # es))"
    proof (intro impI allI)
      fix i assume nv: "\<not> verbose" and i: "i < length (e # es)"
        and bad: "\<not> (e_success ((e # es) ! i) \<or> continue_on_error (e_step ((e # es) ! i)))"
      show "Suc i = length (e # es)"
      proof (cases i)
        case 0
        with bad e False nv show ?thesis by auto
      next
        case (Suc j)
        with i bad es(5) nv show ?thesis by auto
      qed
    qed
    ultimately show ?thesis by blast
  qed
qed

lemma run_workflow_trace:
  assumes "run_workflow h verbose env steps st = Inr (rc, st')"
  shows "trace st' = trace st @ executed st st'
       \<and> map e_step (executed st st') = take (length (executed st st')) steps
       \<and> (rc = 0 \<longleftrightarrow> (\<forall>e \<in> set (executed st st'). e_success e \<or> continue_on_error (e_step e)))
       \<and> (rc \<noteq> 0 \<longrightarrow> rc = 1)
       \<and> (verbose \<or> rc = 0 \<longrightarrow> length (executed st st') = length steps)
       \<and> (\<not> verbose \<longrightarrow> (\<forall>i < length (executed st st').
             \<not> (e_success (executed st st' ! i) \<or> continue_on_error (e_step (executed st st' ! i)))
             \<longrightarrow> Suc i = length (executed st st')))"
proof (cases "steps = []")
  case True
  with assms show ?thesis by (simp add: run_workflow_def executed_def)
next
  case False
  with assms obtain ok where
    rs: "run_steps h verbose env steps True st = Inr (ok, st')" and rc: "rc = (if ok then 0 else 1)"
    by (auto simp: run_workflow_def split: sum.splits)
  from run_steps_trace [OF rs] obtain es where
    es: "trace st' = trace st @ es"
        "map e_step es = take (length es) steps"
        "ok \<longleftrightarrow> True \<and> (\<forall>e \<in> set es. e_success e \<or> continue_on_error (e_step e))"
        "verbose \<or> ok \<longrightarrow> length es = length steps"
        "\<not> verbose \<longrightarrow> (\<forall>i < length es.
            \<not> (e_success (es ! i) \<or> continue_on_error (e_step (es ! i))) \<longrightarrow> Suc i = length es)"
    by blast
  have ex: "executed st st' = es" using es(1) by (simp add: executed_def)
  show ?thesis unfolding ex using es rc by auto
qed

text \<open>
  C1, as amended. In a sequential run in which every executed step that failed has
  \<^verbatim>\<open>continue_on_error\<close> set, every step of the workflow is executed, in order, and the
  verdict is success: the exit code is 0.
\<close>

theorem soft_failures_keep_success:
  assumes "run_workflow h verbose env steps st = Inr (rc, st')"
    and "\<forall>e \<in> set (executed st st'). \<not> e_success e \<longrightarrow> continue_on_error (e_step e)"
  shows "rc = 0 \<and> map e_step (executed st st') = steps"
proof -
  note t = run_workflow_trace [OF assms(1)]
  from t assms(2) have rc: "rc = 0" by blast
  with t have "length (executed st st') = length steps" by blast
  with t rc show ?thesis by simp
qed

theorem soft_failures_keep_success_witness:
  "run_workflow mock_host False Map.empty
     [shell_step ''a'' ''exit 3'' True, shell_step ''b'' ''true'' False] st0 =
   Inr (0, st0\<lparr>trace :=
     [\<lparr>e_step = shell_step ''a'' ''exit 3'' True, e_ret = 3, e_out = [], e_err = [],
       e_success = False\<rparr>,
      \<lparr>e_step = shell_step ''b'' ''true'' False, e_ret = 0, e_out = [], e_err = [],
       e_success = True\<rparr>]\<rparr>)
   \<and> map e_step (executed st0 (st0\<lparr>trace :=
     [\<lparr>e_step = shell_step ''a'' ''exit 3'' True, e_ret = 3, e_out = [], e_err = [],
       e_success = False\<rparr>,
      \<lparr>e_step = shell_step ''b'' ''true'' False, e_ret = 0, e_out = [], e_err = [],
       e_success = True\<rparr>]\<rparr>)) =
   [shell_step ''a'' ''exit 3'' True, shell_step ''b'' ''true'' False]"
proof -
  let ?steps = "[shell_step ''a'' ''exit 3'' True, shell_step ''b'' ''true'' False]"
  let ?st' = "st0\<lparr>trace :=
     [\<lparr>e_step = shell_step ''a'' ''exit 3'' True, e_ret = 3, e_out = [], e_err = [],
       e_success = False\<rparr>,
      \<lparr>e_step = shell_step ''b'' ''true'' False, e_ret = 0, e_out = [], e_err = [],
       e_success = True\<rparr>]\<rparr>"
  have run: "run_workflow mock_host False Map.empty ?steps st0 = Inr (0, ?st')"
    by (simp add: run_workflow_def execute_step_def run_shell_def report_def shell_step_def
        mock_host_def st0_def)
  have soft: "\<forall>e \<in> set (executed st0 ?st'). \<not> e_success e \<longrightarrow> continue_on_error (e_step e)"
    by (simp add: executed_def st0_def shell_step_def)
  from soft_failures_keep_success [OF run soft] run show ?thesis by simp
qed

text \<open>
  C1 as stated fails: a step that fails with \<^verbatim>\<open>continue_on_error\<close> set makes
  \<^verbatim>\<open>execute_step\<close> return true, so the run goes on and ends with exit code 0, not 1.
\<close>

theorem soft_failure_counterexample:
  "run_workflow mock_host False Map.empty
     [shell_step ''a'' ''exit 3'' True, shell_step ''b'' ''true'' False] st0 =
   Inr (0, st0\<lparr>trace :=
     [\<lparr>e_step = shell_step ''a'' ''exit 3'' True, e_ret = 3, e_out = [], e_err = [],
       e_success = False\<rparr>,
      \<lparr>e_step = shell_step ''b'' ''true'' False, e_ret = 0, e_out = [], e_err = [],
       e_success = True\<rparr>]\<rparr>)"
  by (simp add: run_workflow_def execute_step_def run_shell_def report_def shell_step_def
      mock_host_def st0_def)

text \<open>
  C4, as amended. In a sequential run, a step without \<^verbatim>\<open>continue_on_error\<close> that
  fails makes the verdict failure (exit code 1). Without \<^verbatim>\<open>--verbose\<close> it is the last
  step executed: the steps executed are the declared steps up to and including it. With
  \<^verbatim>\<open>--verbose\<close> every declared step is executed.
\<close>

theorem hard_failure_stops_run:
  assumes "run_workflow h verbose env steps st = Inr (rc, st')"
    and "i < length (executed st st')"
    and "\<not> e_success (executed st st' ! i)"
    and "\<not> continue_on_error (e_step (executed st st' ! i))"
  shows "rc = 1
       \<and> map e_step (executed st st') = take (length (executed st st')) steps
       \<and> (\<not> verbose \<longrightarrow> Suc i = length (executed st st'))
       \<and> (verbose \<longrightarrow> length (executed st st') = length steps)"
proof -
  note t = run_workflow_trace [OF assms(1)]
  have "executed st st' ! i \<in> set (executed st st')" using assms(2) by simp
  with assms(3,4) t have "rc \<noteq> 0" by blast
  with t have rc: "rc = 1" by blast
  from t assms(2,3,4) have "\<not> verbose \<longrightarrow> Suc i = length (executed st st')" by blast
  with t rc show ?thesis by blast
qed

theorem hard_failure_stops_run_witness:
  "run_workflow mock_host False Map.empty
     [shell_step ''a'' ''exit 3'' False, shell_step ''b'' ''true'' False] st0 =
   Inr (1, st0\<lparr>trace :=
     [\<lparr>e_step = shell_step ''a'' ''exit 3'' False, e_ret = 3, e_out = [], e_err = [],
       e_success = False\<rparr>]\<rparr>)
   \<and> map e_step (executed st0 (st0\<lparr>trace :=
     [\<lparr>e_step = shell_step ''a'' ''exit 3'' False, e_ret = 3, e_out = [], e_err = [],
       e_success = False\<rparr>]\<rparr>)) =
     take 1 [shell_step ''a'' ''exit 3'' False, shell_step ''b'' ''true'' False]"
proof -
  let ?steps = "[shell_step ''a'' ''exit 3'' False, shell_step ''b'' ''true'' False]"
  let ?st' = "st0\<lparr>trace :=
     [\<lparr>e_step = shell_step ''a'' ''exit 3'' False, e_ret = 3, e_out = [], e_err = [],
       e_success = False\<rparr>]\<rparr>"
  have run: "run_workflow mock_host False Map.empty ?steps st0 = Inr (1, ?st')"
    by (simp add: run_workflow_def execute_step_def run_shell_def report_def shell_step_def
        mock_host_def st0_def)
  have ex: "executed st0 ?st' =
      [\<lparr>e_step = shell_step ''a'' ''exit 3'' False, e_ret = 3, e_out = [], e_err = [],
        e_success = False\<rparr>]"
    by (simp add: executed_def st0_def)
  have i: "0 < length (executed st0 ?st')"
    and failed: "\<not> e_success (executed st0 ?st' ! 0)"
    and hard: "\<not> continue_on_error (e_step (executed st0 ?st' ! 0))"
    unfolding ex by (simp_all add: shell_step_def)
  from hard_failure_stops_run [OF run i failed hard] run show ?thesis
    unfolding ex by simp
qed

text \<open>
  C4 as stated fails under \<^verbatim>\<open>--verbose\<close>: the loop breaks only when the flag is not
  set, so the step after the failed one is executed.
\<close>

theorem hard_failure_verbose_counterexample:
  "run_workflow mock_host True Map.empty
     [shell_step ''a'' ''exit 3'' False, shell_step ''b'' ''true'' False] st0 =
   Inr (1, st0\<lparr>trace :=
     [\<lparr>e_step = shell_step ''a'' ''exit 3'' False, e_ret = 3, e_out = [], e_err = [],
       e_success = False\<rparr>,
      \<lparr>e_step = shell_step ''b'' ''true'' False, e_ret = 0, e_out = [], e_err = [],
       e_success = True\<rparr>]\<rparr>)"
  by (simp add: run_workflow_def execute_step_def run_shell_def report_def shell_step_def
      mock_host_def st0_def)

section \<open>The executor boundary and loading\<close>














end
